theory Spec2Isabelle
  imports Complex_Main "HOL-Library.AList" "HOL-Library.Char_ord" "HOL-Library.List_Lexorder"
    "HOL-Library.Sublist" "HOL-Library.Multiset"
begin

section \<open>Python values and the operations the bot applies to them\<close>

text \<open>
  Every value the bot receives from the platform is the result of decoding JSON
  (\<^verbatim>\<open>r.json()\<close>, \<^verbatim>\<open>json.loads\<close>).  A decoded object is kept as its members in
  document order; \<open>py_items\<close> below gives the items of the Python dict built from them.
  Numbers are the integers; a \<open>string\<close> stands for a Python \<^verbatim>\<open>str\<close>, one \<open>char\<close>
  for each code point.
\<close>

datatype json =
    JNull
  | JBool bool
  | JInt int
  | JStr string
  | JList "json list"
  | JObj "(string \<times> json) list"

datatype py_error =
    KeyError
  | IndexError
  | TypeError
  | AttributeError
  | AssertionError
  | ValueError
  | RequestException
  | JSONDecodeError

text \<open>
  Keys of a Python dict.  Lists and dicts are unhashable; \<^verbatim>\<open>True\<close> and \<^verbatim>\<open>1\<close>
  (and \<^verbatim>\<open>False\<close> and \<^verbatim>\<open>0\<close>) are equal as keys.
\<close>

datatype key = KNone | KInt int | KStr string

fun py_hash :: "json \<Rightarrow> py_error + key" where
  "py_hash JNull = Inr KNone"
| "py_hash (JBool b) = Inr (KInt (if b then 1 else 0))"
| "py_hash (JInt i) = Inr (KInt i)"
| "py_hash (JStr s) = Inr (KStr s)"
| "py_hash (JList xs) = Inl TypeError"
| "py_hash (JObj kvs) = Inl TypeError"

text \<open>
  A dict is an association list in insertion order with distinct keys: storing under a
  key that is present replaces the value in place, storing under a new key appends
  (\<open>AList.update\<close>).  \<open>dict_update d e\<close> is \<^verbatim>\<open>d.update(e)\<close>.
\<close>

definition dict_update :: "('k \<times> 'v) list \<Rightarrow> ('k \<times> 'v) list \<Rightarrow> ('k \<times> 'v) list" where
  "dict_update d e = fold (\<lambda>(k, v). AList.update k v) e d"

definition py_items :: "(string \<times> json) list \<Rightarrow> (string \<times> json) list" where
  "py_items kvs = dict_update [] kvs"

text \<open>
  Keys that are equal need not be the same object: \<^verbatim>\<open>d[True] = v\<close> on a dict that has
  the key \<^verbatim>\<open>1\<close> replaces the value and keeps the key \<^verbatim>\<open>1\<close>.  Where the key objects
  are read back, each item of the dict carries the object that was stored first:
  \<open>setitem k obj v d\<close> is \<^verbatim>\<open>d[obj] = v\<close> for an object \<open>obj\<close> whose key is \<open>k\<close>, and
  \<open>dict_update_keyed d e\<close> is \<^verbatim>\<open>d.update(e)\<close>.
\<close>

definition setitem :: "key \<Rightarrow> json \<Rightarrow> 'v \<Rightarrow> (key \<times> json \<times> 'v) list \<Rightarrow> (key \<times> json \<times> 'v) list" where
  "setitem k obj v d =
     AList.update k (case map_of d k of None \<Rightarrow> obj | Some (obj', v') \<Rightarrow> obj', v) d"

definition dict_update_keyed :: "(key \<times> json \<times> 'v) list \<Rightarrow> (key \<times> json \<times> 'v) list \<Rightarrow> (key \<times> json \<times> 'v) list" where
  "dict_update_keyed d e = fold (\<lambda>(k, obj, v). setitem k obj v) e d"

text \<open>\<^verbatim>\<open>bool(v)\<close>, as the \<^verbatim>\<open>if\<close> and \<^verbatim>\<open>or\<close> of the source apply it.\<close>

fun py_truthy :: "json \<Rightarrow> bool" where
  "py_truthy JNull = False"
| "py_truthy (JBool b) = b"
| "py_truthy (JInt i) = (i \<noteq> 0)"
| "py_truthy (JStr s) = (s \<noteq> [])"
| "py_truthy (JList xs) = (xs \<noteq> [])"
| "py_truthy (JObj kvs) = (kvs \<noteq> [])"

text \<open>\<^verbatim>\<open>v[k]\<close> for a string \<open>k\<close>, and \<^verbatim>\<open>v[0]\<close>.\<close>

fun getitem :: "json \<Rightarrow> string \<Rightarrow> py_error + json" where
  "getitem (JObj kvs) k =
     (case map_of (py_items kvs) k of None \<Rightarrow> Inl KeyError | Some v \<Rightarrow> Inr v)"
| "getitem _ k = Inl TypeError"

fun getitem0 :: "json \<Rightarrow> py_error + json" where
  "getitem0 (JList xs) = (case xs of [] \<Rightarrow> Inl IndexError | x # _ \<Rightarrow> Inr x)"
| "getitem0 (JStr s) = (case s of [] \<Rightarrow> Inl IndexError | c # _ \<Rightarrow> Inr (JStr [c]))"
| "getitem0 (JObj kvs) = Inl KeyError"
| "getitem0 _ = Inl TypeError"

text \<open>\<^verbatim>\<open>for x in v\<close>: the elements of a list, the keys of a dict, the characters of a string.\<close>

fun py_iter :: "json \<Rightarrow> py_error + json list" where
  "py_iter (JList xs) = Inr xs"
| "py_iter (JObj kvs) = Inr (map (\<lambda>(k, v). JStr k) (py_items kvs))"
| "py_iter (JStr s) = Inr (map (\<lambda>c. JStr [c]) s)"
| "py_iter _ = Inl TypeError"

text \<open>
  \<^verbatim>\<open>s.split(sep)\<close>: the text is cut at the occurrences of the separator found scanning
  from the left, each search resuming after the previous occurrence; an empty separator
  is a \<^verbatim>\<open>ValueError\<close>.  \<open>acc\<close> is the part being read, reversed.
\<close>

fun split_scan :: "string \<Rightarrow> string \<Rightarrow> string \<Rightarrow> string list" where
  "split_scan sep acc [] = [rev acc]"
| "split_scan sep acc (c # cs) =
     (if prefix sep (c # cs)
      then rev acc # split_scan sep [] (drop (length sep - 1) cs)
      else split_scan sep (c # acc) cs)"

definition py_split :: "string \<Rightarrow> string \<Rightarrow> py_error + string list" where
  "py_split sep s = (if sep = [] then Inl ValueError else Inr (split_scan sep [] s))"

text \<open>
  The nested comprehension
  \<^verbatim>\<open>[part for s in correct_answers for part in s.split(sep)]\<close>
  over the elements already obtained from the iteration: an element without a
  \<^verbatim>\<open>split\<close> method raises \<^verbatim>\<open>AttributeError\<close>.
\<close>

fun split_all :: "string \<Rightarrow> json list \<Rightarrow> py_error + string list" where
  "split_all sep [] = Inr []"
| "split_all sep (JStr s # xs) =
     (case py_split sep s of
        Inl e \<Rightarrow> Inl e
      | Inr parts \<Rightarrow>
          (case split_all sep xs of Inl e \<Rightarrow> Inl e | Inr rest \<Rightarrow> Inr (parts @ rest)))"
| "split_all sep (_ # xs) = Inl AttributeError"

definition and_then :: "'e + 'a \<Rightarrow> ('a \<Rightarrow> 'e + 'b) \<Rightarrow> 'e + 'b" where
  "and_then m f = (case m of Inl e \<Rightarrow> Inl e | Inr x \<Rightarrow> f x)"

section \<open>The world around the client\<close>

text \<open>
  \<open>src/tophatbot/bot.py\<close>, \<^verbatim>\<open>ENDPOINTS\<close>.  The two parametrised URLs carry the value
  that \<^verbatim>\<open>str.format\<close> inserts.
\<close>

datatype endpoint =
    Home
  | Csrf
  | Login
  | Login_referer
  | File_tree
  | Question_data json
  | Answer json

datatype request =
    Get endpoint "(string \<times> json) list"
  | Post endpoint "(string \<times> endpoint) list" "(string \<times> json) list"

text \<open>
  What the bot reads of a response: the cookies it sets, its headers (looked up by name
  as the HTTP library does), the result of \<^verbatim>\<open>r.json()\<close> and \<^verbatim>\<open>r.text\<close>.
\<close>

record response =
  set_cookies :: "string \<rightharpoonup> string"
  resp_headers :: "string \<rightharpoonup> string"
  resp_json :: "py_error + json"
  resp_text :: string

text \<open>
  The platform, the random number generator and the JSON decoder are outside the
  program: \<open>server\<close> answers a request given the requests made before it (or the
  request raises), \<open>rnd k\<close> is the raw value of the \<open>k\<close>-th random draw, and
  \<open>json_loads\<close> is \<^verbatim>\<open>json.loads\<close> on a string.
\<close>

record env =
  server :: "request list \<Rightarrow> request \<Rightarrow> py_error + response"
  rnd :: "nat \<Rightarrow> nat"
  json_loads :: "string \<Rightarrow> py_error + json"

datatype message =
    Wrap_print string json
  | Not_loaded json
  | No_correct_answer
  | Blank_line
  | Sleep rat

text \<open>
  The effects that outlive an exception: the requests sent, the number of random draws
  made, the lines printed (and the pauses between them) and the warnings issued (each
  with the unrecognised type it reports).
\<close>

record world =
  trace :: "request list"
  drawn :: nat
  stdout :: "message list"
  warned :: "json list"

record session =
  headers :: "string \<rightharpoonup> string"
  cookies :: "string \<rightharpoonup> string"

text \<open>\<^verbatim>\<open>session.get\<close> and \<^verbatim>\<open>session.post\<close>: the cookies of the response stay in the session.\<close>

definition send :: "env \<Rightarrow> request \<Rightarrow> session \<Rightarrow> world \<Rightarrow> (py_error + response) \<times> session \<times> world" where
  "send E req s w =
     (case server E (trace w) req of
        Inl e \<Rightarrow> (Inl e, s, w\<lparr>trace := trace w @ [req]\<rparr>)
      | Inr r \<Rightarrow> (Inr r, s\<lparr>cookies := cookies s ++ set_cookies r\<rparr>, w\<lparr>trace := trace w @ [req]\<rparr>))"

text \<open>
  \<^verbatim>\<open>random.choice(seq)\<close>: \<^verbatim>\<open>len(seq)\<close> must exist and be positive, then one draw
  gives the index.  A decoded dict has string keys only, so indexing it with the drawn
  integer is a \<^verbatim>\<open>KeyError\<close>.
\<close>

fun random_choice :: "env \<Rightarrow> json \<Rightarrow> world \<Rightarrow> (py_error + json) \<times> world" where
  "random_choice E (JList xs) w =
     (if xs = [] then (Inl IndexError, w)
      else (Inr (xs ! (rnd E (drawn w) mod length xs)), w\<lparr>drawn := Suc (drawn w)\<rparr>))"
| "random_choice E (JStr s) w =
     (if s = [] then (Inl IndexError, w)
      else (Inr (JStr [s ! (rnd E (drawn w) mod length s)]), w\<lparr>drawn := Suc (drawn w)\<rparr>))"
| "random_choice E (JObj kvs) w =
     (if kvs = [] then (Inl IndexError, w)
      else (Inl KeyError, w\<lparr>drawn := Suc (drawn w)\<rparr>))"
| "random_choice E _ w = (Inl TypeError, w)"

section \<open>Deriving the answer of a question\<close>

text \<open>
  \<open>TopHatBot.load_question_data\<close>, the \<^verbatim>\<open>elif\<close> chain on \<^verbatim>\<open>question["type"]\<close>
  (lines 110 to 145).  The tuples that \<^verbatim>\<open>sorted\<close> compares have distinct first
  components, the keys of a dict, so their order is the order of the keys.
\<close>

definition answer_by_type :: "env \<Rightarrow> json \<Rightarrow> world \<Rightarrow> (py_error + json) \<times> world" where
  "answer_by_type E q w =
     (case getitem q ''type'' of
        Inl e \<Rightarrow> (Inl e, w)
      | Inr t \<Rightarrow>
          if t = JStr ''match'' then
            (and_then (getitem q ''correct_answers'') (\<lambda>ca.
             and_then (py_iter ca) (\<lambda>xs.
             and_then (split_all ''|,,| '' xs) (\<lambda>parts.
             Inr (JList (map JStr parts))))), w)
          else if t = JStr ''sort'' then
            (and_then (getitem q ''correct_answers'') (\<lambda>ca.
             and_then (py_iter ca) (\<lambda>xs.
             and_then (split_all '', '' xs) (\<lambda>parts.
             Inr (JList (map JStr parts))))), w)
          else if t = JStr ''wa'' \<or> t = JStr ''na'' then
            (case getitem q ''correct_answers'' of
               Inl e \<Rightarrow> (Inl e, w)
             | Inr ca \<Rightarrow>
                 (case random_choice E ca w of
                    (Inl e, w') \<Rightarrow> (Inl e, w')
                  | (Inr a, w') \<Rightarrow> (Inr (JList [a]), w')))
          else if t = JStr ''fitbq'' then
            (and_then (getitem q ''correct_answers'') (\<lambda>ca.
               case ca of
                 JObj kvs \<Rightarrow> Inr (JList (map snd (sort_key fst (py_items kvs))))
               | _ \<Rightarrow> Inl AttributeError), w)
          else if t = JStr ''mc'' then
            (getitem q ''correct_answers'', w)
          else
            (getitem q ''correct_answers'', w\<lparr>warned := warned w @ [t]\<rparr>))"

text \<open>
  Lines 107 to 145: the test \<^verbatim>\<open>question["has_correct_answer"] is False\<close> comes first and
  holds for the decoded JSON \<^verbatim>\<open>false\<close> only.
\<close>

definition derive_answer :: "env \<Rightarrow> json \<Rightarrow> world \<Rightarrow> (py_error + json) \<times> world" where
  "derive_answer E q w =
     (case getitem q ''has_correct_answer'' of
        Inl e \<Rightarrow> (Inl e, w)
      | Inr h \<Rightarrow>
          if h = JBool False then
            (case getitem q ''choices'' of
               Inl e \<Rightarrow> (Inl e, w)
             | Inr cs \<Rightarrow>
                 (case random_choice E cs w of
                    (Inl e, w') \<Rightarrow> (Inl e, w')
                  | (Inr a, w') \<Rightarrow> (Inr (JList [a]), w')))
          else answer_by_type E q w)"

section \<open>The client\<close>

record entry =
  question :: json
  answer :: json
  type :: json
  has_correct_answer :: json

record client =
  username :: json
  password :: json
  course_id :: json
  session :: session
  jwt :: string
  chapters :: "(key \<times> json) list"
  questions :: "(key \<times> json \<times> entry) list"

text \<open>
  \<open>TopHatBot.load_question_data\<close>, the body of the \<^verbatim>\<open>for\<close> loop: \<open>qs\<close> is
  \<^verbatim>\<open>self._questions\<close>, which the loop only reads, and \<open>data\<close> the local dict.  The
  id is read twice, for the test of line 101 and for \<^verbatim>\<open>question_id\<close> of line 104.
\<close>

fun load_loop :: "env \<Rightarrow> (key \<times> json \<times> entry) list \<Rightarrow> json list
    \<Rightarrow> (key \<times> json \<times> entry) list \<Rightarrow> world
    \<Rightarrow> (py_error + (key \<times> json \<times> entry) list) \<times> world" where
  "load_loop E qs [] data w = (Inr data, w)"
| "load_loop E qs (q # rest) data w =
     (case and_then (getitem q ''id'') py_hash of
        Inl e \<Rightarrow> (Inl e, w)
      | Inr k \<Rightarrow>
          if k \<in> set (map fst qs) then load_loop E qs rest data w
          else
            (case getitem q ''id'' of
               Inl e \<Rightarrow> (Inl e, w)
             | Inr question_id \<Rightarrow>
                 (case getitem q ''question'' of
                    Inl e \<Rightarrow> (Inl e, w)
                  | Inr question_text \<Rightarrow>
                      (case derive_answer E q w of
                         (Inl e, w') \<Rightarrow> (Inl e, w')
                       | (Inr a, w') \<Rightarrow>
                           (case getitem q ''type'' of
                              Inl e \<Rightarrow> (Inl e, w')
                            | Inr t \<Rightarrow>
                                (case getitem q ''has_correct_answer'' of
                                   Inl e \<Rightarrow> (Inl e, w')
                                 | Inr h \<Rightarrow>
                                     load_loop E qs rest
                                       (setitem k question_id
                                          \<lparr>question = question_text, answer = a, type = t,
                                           has_correct_answer = h\<rparr> data) w'))))))"

text \<open>
  \<open>TopHatBot.load_question_data\<close>.  The accumulated mapping changes in the last
  statement only, so an exception leaves it as it was.
\<close>

definition load_question_data :: "env \<Rightarrow> json \<Rightarrow> client \<Rightarrow> world \<Rightarrow> (py_error + unit) \<times> client \<times> world" where
  "load_question_data E chapter_id c w =
     (case send E (Get (Question_data chapter_id) []) (session c) w of
        (Inl e, s, w1) \<Rightarrow> (Inl e, c\<lparr>session := s\<rparr>, w1)
      | (Inr r, s, w1) \<Rightarrow>
          (case and_then (resp_json r) py_iter of
             Inl e \<Rightarrow> (Inl e, c\<lparr>session := s\<rparr>, w1)
           | Inr qlist \<Rightarrow>
               (case load_loop E (questions c) qlist [] w1 of
                  (Inl e, w2) \<Rightarrow> (Inl e, c\<lparr>session := s\<rparr>, w2)
                | (Inr data, w2) \<Rightarrow>
                    (Inr (), c\<lparr>session := s, questions := dict_update_keyed (questions c) data\<rparr>, w2))))"

text \<open>
  \<open>TopHatBot.answer_question\<close>.  Only the \<^verbatim>\<open>KeyError\<close> of the lookup is caught; an
  unhashable argument raises \<^verbatim>\<open>TypeError\<close>.  The result is \<^verbatim>\<open>None\<close> or \<^verbatim>\<open>r.text\<close>.
\<close>

definition answer_question :: "env \<Rightarrow> json \<Rightarrow> client \<Rightarrow> world \<Rightarrow> (py_error + string option) \<times> client \<times> world" where
  "answer_question E question_id c w =
     (case py_hash question_id of
        Inl e \<Rightarrow> (Inl e, c, w)
      | Inr k \<Rightarrow>
          (case map_of (questions c) k of
             None \<Rightarrow> (Inr None, c, w\<lparr>stdout := stdout w @ [Not_loaded question_id]\<rparr>)
           | Some (stored_id, en) \<Rightarrow>
               (case send E (Post (Answer question_id) [] [(''answer'', answer en)]) (session c) w of
                  (Inl e, s, w1) \<Rightarrow> (Inl e, c\<lparr>session := s\<rparr>, w1)
                | (Inr r, s, w1) \<Rightarrow> (Inr (Some (resp_text r)), c\<lparr>session := s\<rparr>, w1))))"

section \<open>Chapters\<close>

text \<open>
  \<open>Psych210Bot.required_chapters\<close>: the dict comprehension over
  \<^verbatim>\<open>self.chapters.items()\<close>.  A display name that is not a string has no
  \<^verbatim>\<open>startswith\<close>.
\<close>

fun required_chapters_of :: "(key \<times> json) list \<Rightarrow> py_error + (key \<times> json) list" where
  "required_chapters_of [] = Inr []"
| "required_chapters_of ((KStr chapter, chapter_id) # rest) =
     (case required_chapters_of rest of
        Inl e \<Rightarrow> Inl e
      | Inr req \<Rightarrow>
          Inr (if prefix ''Chapter'' chapter \<and> \<not> sublist ''OPTIONAL'' chapter
               then (KStr chapter, chapter_id) # req else req))"
| "required_chapters_of (_ # rest) = Inl AttributeError"

definition required_chapters :: "client \<Rightarrow> py_error + (key \<times> json) list" where
  "required_chapters c = required_chapters_of (chapters c)"

text \<open>\<^verbatim>\<open>str(i)\<close> for an integer, as the f-string \<^verbatim>\<open>f"Chapter {i}"\<close> formats it.\<close>

fun digits :: "nat \<Rightarrow> string" where
  "digits n =
     (if n < 10 then [''0123456789'' ! n]
      else digits (n div 10) @ [''0123456789'' ! (n mod 10)])"

definition str_int :: "int \<Rightarrow> string" where
  "str_int i = (if i < 0 then CHR ''-'' # digits (nat (- i)) else digits (nat i))"

text \<open>
  \<open>Psych210Bot._load_chapters\<close>, lines 182 and 184:
  \<^verbatim>\<open>valid_prefixes = tuple(f"Chapter {i}" for i in chapters) or ""\<close> and
  \<^verbatim>\<open>chapter.startswith(valid_prefixes)\<close>.  An empty tuple is falsy, so it gives way to
  the empty string.
\<close>

definition valid_prefixes :: "int list \<Rightarrow> string list + string" where
  "valid_prefixes nums =
     (let t = map (\<lambda>i. ''Chapter '' @ str_int i) nums
      in if t = [] then Inr [] else Inl t)"

fun startswith :: "string \<Rightarrow> string list + string \<Rightarrow> bool" where
  "startswith s (Inl t) = list_ex (\<lambda>p. prefix p s) t"
| "startswith s (Inr p) = prefix p s"

fun load_chapters_loop :: "env \<Rightarrow> string list + string \<Rightarrow> (key \<times> json) list \<Rightarrow> client \<Rightarrow> world
    \<Rightarrow> (py_error + unit) \<times> client \<times> world" where
  "load_chapters_loop E vp [] c w = (Inr (), c, w)"
| "load_chapters_loop E vp ((KStr chapter, chapter_id) # rest) c w =
     (if startswith chapter vp then
        (case load_question_data E chapter_id c
                (w\<lparr>stdout := stdout w @ [Wrap_print ''Loading chapter'' (JStr chapter)]\<rparr>) of
           (Inl e, c', w') \<Rightarrow> (Inl e, c', w')
         | (Inr u, c', w') \<Rightarrow> load_chapters_loop E vp rest c' w')
      else load_chapters_loop E vp rest c w)"
| "load_chapters_loop E vp (_ # rest) c w = (Inl AttributeError, c, w)"

text \<open>
  \<open>Psych210Bot._load_chapters\<close>.  The argument is \<^verbatim>\<open>None\<close> or a list of chapter
  numbers.
\<close>

definition load_chapters :: "env \<Rightarrow> int list option \<Rightarrow> client \<Rightarrow> world \<Rightarrow> (py_error + unit) \<times> client \<times> world" where
  "load_chapters E chs c w =
     (let nums = (case chs of None \<Rightarrow> [] | Some ns \<Rightarrow> ns);
          vp = valid_prefixes nums
      in case required_chapters c of
           Inl e \<Rightarrow> (Inl e, c, w)
         | Inr req \<Rightarrow> load_chapters_loop E vp req c w)"

text \<open>The lines that \<open>list_questions\<close> and \<open>run\<close> print for one question.\<close>

definition show_question :: "entry \<Rightarrow> message list" where
  "show_question en =
     [Wrap_print ''Question'' (question en),
      if py_truthy (has_correct_answer en) then Wrap_print ''Correct answer'' (answer en)
      else No_correct_answer]"

text \<open>\<open>Psych210Bot.list_questions\<close>.\<close>

definition list_questions :: "env \<Rightarrow> int list option \<Rightarrow> client \<Rightarrow> world \<Rightarrow> (py_error + unit) \<times> client \<times> world" where
  "list_questions E chs c w =
     (case load_chapters E chs c w of
        (Inl e, c', w') \<Rightarrow> (Inl e, c', w')
      | (Inr u, c', w') \<Rightarrow>
          (Inr (), c', w'\<lparr>stdout := stdout w' @ concat (map (\<lambda>(k, question_id, en). show_question en) (questions c'))\<rparr>))"

text \<open>
  \<open>Psych210Bot.run\<close>, the loop over \<^verbatim>\<open>self.questions.items()\<close>; \<open>answer_question\<close>
  leaves the mapping as it is, so the items are those at the start of the loop.  The
  key object of an item is what \<open>answer_question\<close> receives.  \<^verbatim>\<open>sleep\<close> refuses a
  negative delay.
\<close>

fun run_loop :: "env \<Rightarrow> rat \<Rightarrow> (key \<times> json \<times> entry) list \<Rightarrow> client \<Rightarrow> world \<Rightarrow> (py_error + unit) \<times> client \<times> world" where
  "run_loop E delay [] c w = (Inr (), c, w)"
| "run_loop E delay ((k, question_id, en) # rest) c w =
     (case answer_question E question_id c
             (w\<lparr>stdout := stdout w @ show_question en @ [Wrap_print ''Submitting answer'' (answer en)]\<rparr>) of
        (Inl e, c', w') \<Rightarrow> (Inl e, c', w')
      | (Inr resp, c', w') \<Rightarrow>
          (let out = [Wrap_print ''Received response from server''
                        (case resp of None \<Rightarrow> JNull | Some t \<Rightarrow> JStr t), Blank_line]
           in if delay < 0 then (Inl ValueError, c', w'\<lparr>stdout := stdout w' @ out\<rparr>)
              else run_loop E delay rest c' (w'\<lparr>stdout := stdout w' @ out @ [Sleep delay]\<rparr>)))"

definition run :: "env \<Rightarrow> int list option \<Rightarrow> rat \<Rightarrow> client \<Rightarrow> world \<Rightarrow> (py_error + unit) \<times> client \<times> world" where
  "run E chs delay c w =
     (case load_chapters E chs c w of
        (Inl e, c', w') \<Rightarrow> (Inl e, c', w')
      | (Inr u, c', w') \<Rightarrow> run_loop E delay (questions c') c' w')"

section \<open>Construction of the client\<close>

text \<open>\<open>TopHatBot._load_csrf_cookie\<close>.\<close>

definition load_csrf_cookie :: "env \<Rightarrow> session \<Rightarrow> world \<Rightarrow> (py_error + unit) \<times> session \<times> world" where
  "load_csrf_cookie E s w =
     (case send E (Get Csrf []) s w of
        (Inl e, s', w') \<Rightarrow> (Inl e, s', w')
      | (Inr r, s', w') \<Rightarrow>
          (if cookies s' ''csrftoken'' \<noteq> None then (Inr (), s', w')
           else (Inl AssertionError, s', w')))"

text \<open>\<open>TopHatBot._csrf_token\<close>.\<close>

definition csrf_token :: "env \<Rightarrow> session \<Rightarrow> world \<Rightarrow> (py_error + string) \<times> session \<times> world" where
  "csrf_token E s w =
     (case (if cookies s ''csrftoken'' = None then load_csrf_cookie E s w else (Inr (), s, w)) of
        (Inl e, s', w') \<Rightarrow> (Inl e, s', w')
      | (Inr u, s', w') \<Rightarrow>
          (case cookies s' ''csrftoken'' of
             None \<Rightarrow> (Inl KeyError, s', w')
           | Some t \<Rightarrow> (Inr t, s', w')))"

text \<open>\<open>TopHatBot._login\<close>.\<close>

definition login :: "env \<Rightarrow> json \<Rightarrow> json \<Rightarrow> session \<Rightarrow> world \<Rightarrow> (py_error + string) \<times> session \<times> world" where
  "login E user pass s w =
     (case send E (Post Login [(''referer'', Login_referer)]
                     [(''username'', user), (''password'', pass)]) s w of
        (Inl e, s', w') \<Rightarrow> (Inl e, s', w')
      | (Inr r, s', w') \<Rightarrow>
          (case resp_headers r ''TH_JWT'' of
             None \<Rightarrow> (Inl KeyError, s', w')
           | Some t \<Rightarrow> (Inr t, s', w')))"

text \<open>
  \<open>TopHatBot._get_chapters\<close>: \<^verbatim>\<open>r.json()["objects"][0]["data"]\<close>, decoded a second
  time, then \<^verbatim>\<open>tree_root["children"][0]["children"]\<close> and the dict comprehension from
  display name to id, where a later chapter of the same name replaces the id.  Of the
  key objects of this dict only strings are read back, so an item is kept under its key.
\<close>

fun chapters_dict :: "json list \<Rightarrow> (key \<times> json) list \<Rightarrow> py_error + (key \<times> json) list" where
  "chapters_dict [] d = Inr d"
| "chapters_dict (chapter # rest) d =
     (case getitem chapter ''display_name'' of
        Inl e \<Rightarrow> Inl e
      | Inr name \<Rightarrow>
          (case getitem chapter ''id'' of
             Inl e \<Rightarrow> Inl e
           | Inr i \<Rightarrow>
               (case py_hash name of
                  Inl e \<Rightarrow> Inl e
                | Inr k \<Rightarrow> chapters_dict rest (AList.update k i d))))"

definition get_chapters :: "env \<Rightarrow> json \<Rightarrow> session \<Rightarrow> world \<Rightarrow> (py_error + (key \<times> json) list) \<times> session \<times> world" where
  "get_chapters E course s w =
     (case send E (Get File_tree
                     [(''module_id'', JStr ''unitree''), (''course_id'', course), (''limit'', JInt 0)]) s w of
        (Inl e, s', w') \<Rightarrow> (Inl e, s', w')
      | (Inr r, s', w') \<Rightarrow>
          (and_then (resp_json r) (\<lambda>body.
           and_then (getitem body ''objects'') (\<lambda>objects.
           and_then (getitem0 objects) (\<lambda>obj.
           and_then (getitem obj ''data'') (\<lambda>data.
           and_then (case data of JStr text \<Rightarrow> json_loads E text | _ \<Rightarrow> Inl TypeError) (\<lambda>tree_root.
           and_then (getitem tree_root ''children'') (\<lambda>top.
           and_then (getitem0 top) (\<lambda>unit.
           and_then (getitem unit ''children'') (\<lambda>chs.
           and_then (py_iter chs) (\<lambda>chapter_list.
           chapters_dict chapter_list []))))))))), s', w'))"

definition user_agent :: string where
  "user_agent =
     ''Mozilla/5.0 (Macintosh; Intel Mac OS X 10_15_7) AppleWebKit/537.36 '' @
     ''(KHTML, like Gecko) Chrome/86.0.4240.75 Safari/537.36''"

text \<open>
  \<open>TopHatBot.__init__\<close>.  \<open>class_course_id\<close> is the class attribute
  \<^verbatim>\<open>COURSE_ID\<close> (\<^verbatim>\<open>None\<close> for \<open>TopHatBot\<close>, 250265 for \<open>Psych210Bot\<close>).  The session
  starts without cookies.  An exception leaves no client.
\<close>

definition init :: "env \<Rightarrow> json \<Rightarrow> json \<Rightarrow> json \<Rightarrow> json \<Rightarrow> world \<Rightarrow> (py_error + client) \<times> world" where
  "init E class_course_id user pass cid w =
     (let course = (if py_truthy cid then cid else class_course_id)
      in if course = JNull then (Inl AssertionError, w)
         else
           (let s0 = \<lparr>headers = [''user-agent'' \<mapsto> user_agent], cookies = Map.empty\<rparr>
            in case csrf_token E s0 w of
                 (Inl e, s1, w1) \<Rightarrow> (Inl e, w1)
               | (Inr tok, s1, w1) \<Rightarrow>
                   (let s2 = s1\<lparr>headers := (headers s1)(''x-csrftoken'' \<mapsto> tok)\<rparr>
                    in case login E user pass s2 w1 of
                         (Inl e, s3, w2) \<Rightarrow> (Inl e, w2)
                       | (Inr t, s3, w2) \<Rightarrow>
                           (let s4 = s3\<lparr>headers := (headers s3)(''authorization'' \<mapsto> ''Bearer '' @ t)\<rparr>
                            in case get_chapters E course s4 w2 of
                                 (Inl e, s5, w3) \<Rightarrow> (Inl e, w3)
                               | (Inr chs, s5, w3) \<Rightarrow>
                                   (Inr \<lparr>username = user, password = pass, course_id = course,
                                         session = s5, jwt = t, chapters = chs, questions = []\<rparr>,
                                    w3)))))"

definition Psych210Bot_COURSE_ID :: json where
  "Psych210Bot_COURSE_ID = JInt 250265"

section \<open>Auxiliary definitions and concrete inputs\<close>

text \<open>
  \<^verbatim>\<open>sep.join(parts)\<close>, to say what the parts of a split are.
\<close>

fun join :: "string \<Rightarrow> string list \<Rightarrow> string" where
  "join sep [] = []"
| "join sep [p] = p"
| "join sep (p # q # ps) = p @ sep @ join sep (q # ps)"

text \<open>
  A platform that answers no request, a generator whose \<open>k\<close>-th draw is \<open>k\<close>, and the
  world before anything has happened.
\<close>

definition env0 :: env where
  "env0 = \<lparr>server = (\<lambda>h r. Inl RequestException), rnd = (\<lambda>k. k),
            json_loads = (\<lambda>s. Inl JSONDecodeError)\<rparr>"

definition world0 :: world where
  "world0 = \<lparr>trace = [], drawn = 0, stdout = [], warned = []\<rparr>"

text \<open>Question objects as the platform sends them.\<close>

definition match_question :: json where
  "match_question = JObj [(''id'', JInt 1), (''question'', JStr ''Pair them''),
     (''type'', JStr ''match''), (''has_correct_answer'', JBool True),
     (''choices'', JList []),
     (''correct_answers'', JList [JStr ''a|,,| b'', JStr ''c|,,| d''])]"

definition sort_question :: json where
  "sort_question = JObj [(''id'', JInt 2), (''question'', JStr ''Order them''),
     (''type'', JStr ''sort''), (''has_correct_answer'', JBool True),
     (''choices'', JList []),
     (''correct_answers'', JList [JStr ''x, y'', JStr ''z''])]"

definition fitbq_question :: json where
  "fitbq_question = JObj [(''id'', JInt 3), (''question'', JStr ''Fill in''),
     (''type'', JStr ''fitbq''), (''has_correct_answer'', JBool True),
     (''choices'', JList []),
     (''correct_answers'', JObj [(''2'', JStr ''foo''), (''1'', JStr ''bar'')])]"

definition poll_question :: "json \<Rightarrow> json" where
  "poll_question t = JObj [(''id'', JInt 4), (''question'', JStr ''Your view''),
     (''type'', t), (''has_correct_answer'', JBool False),
     (''choices'', JList [JStr ''A'', JStr ''B'']),
     (''correct_answers'', JList [])]"

definition empty_poll_question :: json where
  "empty_poll_question = JObj [(''id'', JInt 6), (''question'', JStr ''Any view''),
     (''type'', JStr ''mc''), (''has_correct_answer'', JBool False),
     (''choices'', JList []),
     (''correct_answers'', JList [])]"

definition mc_question :: "json \<Rightarrow> json" where
  "mc_question h = JObj [(''id'', JInt 5), (''question'', JStr ''Pick one''),
     (''type'', JStr ''mc''), (''has_correct_answer'', h),
     (''choices'', JList [JStr ''A'', JStr ''B'']),
     (''correct_answers'', JList [JStr ''B''])]"

text \<open>
  A platform that knows two chapters, with two questions and one, and a client that has
  four chapters and has loaded nothing.
\<close>

definition env1 :: env where
  "env1 = \<lparr>server = (\<lambda>h r.
       if r = Get (Question_data (JInt 7)) []
       then Inr \<lparr>set_cookies = Map.empty, resp_headers = Map.empty,
                 resp_json = Inr (JList [match_question, poll_question (JStr ''mc'')]),
                 resp_text = []\<rparr>
       else if r = Get (Question_data (JInt 10)) []
       then Inr \<lparr>set_cookies = Map.empty, resp_headers = Map.empty,
                 resp_json = Inr (JList [mc_question (JBool True)]),
                 resp_text = []\<rparr>
       else Inl RequestException),
     rnd = (\<lambda>k. k), json_loads = (\<lambda>s. Inl JSONDecodeError)\<rparr>"

definition client0 :: client where
  "client0 = \<lparr>username = JStr ''student'', password = JStr ''secret'',
     course_id = JInt 250265,
     session = \<lparr>headers = Map.empty, cookies = Map.empty\<rparr>, jwt = ''token'',
     chapters = [(KStr ''Chapter 3: Intro'', JInt 7), (KStr ''Chapter 3 OPTIONAL'', JInt 8),
                 (KStr ''Appendix'', JInt 9), (KStr ''Chapter 4: Memory'', JInt 10)],
     questions = []\<rparr>"

text \<open>
  A platform whose bootstrap response sets no cookie, and one that sets the cookie and
  answers the login without the token header.
\<close>

definition env_no_csrf :: env where
  "env_no_csrf = \<lparr>server = (\<lambda>h r.
       Inr \<lparr>set_cookies = Map.empty, resp_headers = Map.empty,
            resp_json = Inl JSONDecodeError, resp_text = []\<rparr>),
     rnd = (\<lambda>k. k), json_loads = (\<lambda>s. Inl JSONDecodeError)\<rparr>"

definition env_no_jwt :: env where
  "env_no_jwt = \<lparr>server = (\<lambda>h r.
       Inr \<lparr>set_cookies = (if r = Get Csrf [] then [''csrftoken'' \<mapsto> ''abc''] else Map.empty),
            resp_headers = Map.empty,
            resp_json = Inl JSONDecodeError, resp_text = []\<rparr>),
     rnd = (\<lambda>k. k), json_loads = (\<lambda>s. Inl JSONDecodeError)\<rparr>"

text \<open>A platform whose chapter 7 has a question without a correct answer and without choices.\<close>

definition env_empty_poll :: env where
  "env_empty_poll = \<lparr>server = (\<lambda>h r.
       if r = Get (Question_data (JInt 7)) []
       then Inr \<lparr>set_cookies = Map.empty, resp_headers = Map.empty,
                 resp_json = Inr (JList [match_question, empty_poll_question]),
                 resp_text = []\<rparr>
       else Inl RequestException),
     rnd = (\<lambda>k. k), json_loads = (\<lambda>s. Inl JSONDecodeError)\<rparr>"

section \<open>Splitting a string\<close>

text \<open>
  The parts of a split, joined by the separator, give the text back, and no part
  contains the separator.
\<close>

lemma split_scan_nonempty: "split_scan sep acc s \<noteq> []"
  by (induction sep acc s rule: split_scan.induct) auto

lemma join_Cons: "ps \<noteq> [] \<Longrightarrow> join sep (p # ps) = p @ sep @ join sep ps"
  by (cases ps) auto

lemma join_split_scan: "sep \<noteq> [] \<Longrightarrow> join sep (split_scan sep acc s) = rev acc @ s"
proof (induction sep acc s rule: split_scan.induct)
  case (1 sep acc)
  then show ?case by simp
next
  case (2 sep acc c cs)
  show ?case
  proof (cases "prefix sep (c # cs)")
    case True
    then obtain r where r: "c # cs = sep @ r" by (auto simp: prefix_def)
    with 2(3) have d: "drop (length sep - 1) cs = r"
      by (cases sep) auto
    from True have "split_scan sep acc (c # cs) = rev acc # split_scan sep [] r"
      unfolding d [symmetric] by simp
    moreover from 2(1) [OF True 2(3)] d have "join sep (split_scan sep [] r) = r"
      by simp
    ultimately show ?thesis
      using r by (simp add: join_Cons split_scan_nonempty)
  next
    case False
    with 2 show ?thesis by simp
  qed
qed

lemma sublist_step:
  assumes "sep \<noteq> []" "\<not> sublist sep (xs @ take (length sep - 1) (c # cs))" "\<not> prefix sep (c # cs)"
  shows "\<not> sublist sep (xs @ c # take (length sep - 1) cs)"
proof
  assume "sublist sep (xs @ c # take (length sep - 1) cs)"
  then obtain ps ss where eq: "xs @ c # take (length sep - 1) cs = ps @ sep @ ss"
    by (auto simp: sublist_def)
  show False
  proof (cases "length cs < length sep - 1")
    case True
    then have "take (length sep - 1) (c # cs) = c # take (length sep - 1) cs"
      by (cases sep) auto
    with assms(2) eq show False by (auto simp: sublist_def)
  next
    case False
    show False
    proof (cases ss rule: rev_cases)
      case Nil
      with eq False assms(1) have "length ps = length xs"
        by simp
      with eq Nil have "sep = c # take (length sep - 1) cs" by auto
      then have "prefix sep (c # cs)"
        by (metis Cons_prefix_Cons take_is_prefix)
      with assms(3) show False by simp
    next
      case (snoc ss' z)
      with eq have "butlast (xs @ c # take (length sep - 1) cs) = ps @ sep @ ss'"
        by (metis append_assoc butlast_snoc)
      moreover have "butlast (xs @ c # take (length sep - 1) cs) = xs @ take (length sep - 1) (c # cs)"
        using False assms(1)
        by (metis butlast.simps(2) butlast_append butlast_take leI
            le_neq_implies_less list.distinct(1) list.size(3) take_Cons'
            take_all_iff take_eq_Nil2)
      ultimately have "xs @ take (length sep - 1) (c # cs) = ps @ sep @ ss'"
        by simp
      then have "sublist sep (xs @ take (length sep - 1) (c # cs))"
        unfolding sublist_def by blast
      with assms(2) show False by simp
    qed
  qed
qed

lemma split_scan_parts:
  "sep \<noteq> [] \<Longrightarrow> \<not> sublist sep (rev acc @ take (length sep - 1) s)
    \<Longrightarrow> p \<in> set (split_scan sep acc s) \<Longrightarrow> \<not> sublist sep p"
proof (induction sep acc s rule: split_scan.induct)
  case (1 sep acc)
  then show ?case by simp
next
  case (2 sep acc c cs)
  show ?case
  proof (cases "prefix sep (c # cs)")
    case True
    have a: "\<not> sublist sep (rev acc)"
      using 2(4) sublist_append by blast 
    have b: "\<not> sublist sep (rev [] @ take (length sep - 1) (drop (length sep - 1) cs))"
      using 2(3) by (cases sep) (auto dest!: sublist_length_le) 
    from 2(5) True have "p = rev acc \<or> p \<in> set (split_scan sep [] (drop (length sep - 1) cs))"
      by simp
    with a b 2(1)[OF True 2(3)] show ?thesis by blast
  next
    case False
    have "\<not> sublist sep (rev (c # acc) @ take (length sep - 1) cs)"
      using sublist_step [OF 2(3) 2(4) False] by simp
    with 2 False show ?thesis by simp
  qed
qed

lemma split_all_strings:
  "sep \<noteq> [] \<Longrightarrow> split_all sep (map JStr ss) = Inr (concat (map (split_scan sep []) ss))"
  by (induction ss) (auto simp: py_split_def)

lemma join_split: "py_split sep s = Inr parts \<Longrightarrow> join sep parts = s"
  using join_split_scan [of sep "[]" s] by (auto simp: py_split_def split: if_splits)

lemma split_parts_free:
  assumes "py_split sep s = Inr parts" and "p \<in> set parts"
  shows "\<not> sublist sep p"
proof -
  from assms(1) have sep: "sep \<noteq> []" and parts: "parts = split_scan sep [] s"
    by (auto simp: py_split_def split: if_splits)
  have "\<not> sublist sep (rev [] @ take (length sep - 1) s)"
  proof
    assume "sublist sep (rev [] @ take (length sep - 1) s)"
    then have "length sep \<le> length (take (length sep - 1) s)"
      by (auto dest: sublist_length_le)
    with sep show False by (cases sep) auto
  qed
  from split_scan_parts [OF sep this] assms(2) parts show ?thesis by simp
qed

section \<open>Dicts\<close>

lemma dict_update_Nil [simp]: "dict_update d [] = d"
  by (simp add: dict_update_def)

lemma dict_update_Cons [simp]: "dict_update d ((k, v) # e) = dict_update (AList.update k v d) e"
  by (simp add: dict_update_def)

lemma distinct_dict_update: "distinct (map fst d) \<Longrightarrow> distinct (map fst (dict_update d e))"
  by (induction e arbitrary: d) (auto simp: distinct_update)

lemma map_of_dict_update: "map_of (dict_update d e) = map_of d ++ map_of (rev e)"
  by (induction e arbitrary: d) (auto simp: update_conv' fun_eq_iff map_add_def split: option.splits)

lemma update_fresh: "k \<notin> fst ` set d \<Longrightarrow> AList.update k v d = d @ [(k, v)]"
  by (induction d) auto

lemma dict_update_fresh:
  "distinct (map fst e) \<Longrightarrow> fst ` set e \<inter> fst ` set d = {} \<Longrightarrow> dict_update d e = d @ e"
proof (induction e arbitrary: d)
  case Nil
  then show ?case by simp
next
  case (Cons kv e)
  obtain k v where kv: "kv = (k, v)" by (cases kv)
  from Cons.prems kv have "k \<notin> fst ` set d" by auto
  then have u: "AList.update k v d = d @ [(k, v)]" by (rule update_fresh)
  from Cons.prems kv have "fst ` set e \<inter> fst ` set (d @ [(k, v)]) = {}"
    by (auto simp: image_iff)
  with Cons.IH [of "d @ [(k, v)]"] Cons.prems kv u show ?case by simp
qed

lemma setitem_fresh: "k \<notin> fst ` set d \<Longrightarrow> setitem k obj v d = d @ [(k, obj, v)]"
proof -
  assume a: "k \<notin> fst ` set d"
  then have "map_of d k = None" by (simp add: map_of_eq_None_iff)
  with a show ?thesis by (simp add: setitem_def update_fresh)
qed

lemma dom_setitem: "fst ` set (setitem k obj v d) = {k} \<union> fst ` set d"
  by (simp add: setitem_def dom_update)

lemma distinct_setitem: "distinct (map fst d) \<Longrightarrow> distinct (map fst (setitem k obj v d))"
  by (simp add: setitem_def distinct_update)

lemma dict_update_keyed_Nil [simp]: "dict_update_keyed d [] = d"
  by (simp add: dict_update_keyed_def)

lemma dict_update_keyed_Cons [simp]:
  "dict_update_keyed d ((k, obj, v) # e) = dict_update_keyed (setitem k obj v d) e"
  by (simp add: dict_update_keyed_def)

lemma dict_update_keyed_fresh:
  "distinct (map fst e) \<Longrightarrow> fst ` set e \<inter> fst ` set d = {} \<Longrightarrow> dict_update_keyed d e = d @ e"
proof (induction e arbitrary: d)
  case Nil
  then show ?case by simp
next
  case (Cons x e)
  obtain k obj v where x: "x = (k, obj, v)" by (cases x)
  from Cons.prems x have "k \<notin> fst ` set d" by auto
  then have u: "setitem k obj v d = d @ [(k, obj, v)]" by (rule setitem_fresh)
  from Cons.prems x have "fst ` set e \<inter> fst ` set (d @ [(k, obj, v)]) = {}"
    by (auto simp: image_iff)
  with Cons.IH [of "d @ [(k, obj, v)]"] Cons.prems x u show ?case by simp
qed

lemma py_items_distinct: "distinct (map fst kvs) \<Longrightarrow> py_items kvs = kvs"
  using dict_update_fresh [of kvs "[]"] by (simp add: py_items_def)

lemma distinct_py_items: "distinct (map fst (py_items kvs))"
  by (simp add: py_items_def distinct_dict_update)

section \<open>The derived answer\<close>

text \<open>
  C2.  A question whose \<^verbatim>\<open>has_correct_answer\<close> is not \<^verbatim>\<open>False\<close>, of type
  \<^verbatim>\<open>"match"\<close>, with the list of strings \<open>ss\<close> as correct answers: the derived answer
  is the concatenation, in the order of \<open>ss\<close>, of the parts of each string split on
  \<^verbatim>\<open>"|,,| "\<close>.  Nothing else changes.
\<close>

theorem match_answer:
  assumes "getitem q ''has_correct_answer'' = Inr h" and "h \<noteq> JBool False"
    and "getitem q ''type'' = Inr (JStr ''match'')"
    and "getitem q ''correct_answers'' = Inr (JList (map JStr ss))"
  shows "derive_answer E q w =
     (Inr (JList (map JStr (concat (map (\<lambda>s. split_scan ''|,,| '' [] s) ss)))), w)"
  using assms by (simp add: derive_answer_def answer_by_type_def and_then_def split_all_strings)

text \<open>The example of the specification: \<^verbatim>\<open>["a|,,| b", "c|,,| d"]\<close> gives \<^verbatim>\<open>["a", "b", "c", "d"]\<close>.\<close>

theorem match_answer_witness:
  "derive_answer env0 match_question world0 =
     (Inr (JList [JStr ''a'', JStr ''b'', JStr ''c'', JStr ''d'']), world0)"
  using match_answer [where q = match_question and h = "JBool True"
      and ss = "[''a|,,| b'', ''c|,,| d'']" and E = env0 and w = world0]
  by (simp add: match_question_def py_items_def)

text \<open>
  C3.  The same for type \<^verbatim>\<open>"sort"\<close> and the separator \<^verbatim>\<open>", "\<close>.
\<close>

theorem sort_answer:
  assumes "getitem q ''has_correct_answer'' = Inr h" and "h \<noteq> JBool False"
    and "getitem q ''type'' = Inr (JStr ''sort'')"
    and "getitem q ''correct_answers'' = Inr (JList (map JStr ss))"
  shows "derive_answer E q w =
     (Inr (JList (map JStr (concat (map (\<lambda>s. split_scan '', '' [] s) ss)))), w)"
  using assms by (simp add: derive_answer_def answer_by_type_def and_then_def split_all_strings)

text \<open>The example of the specification: \<^verbatim>\<open>["x, y", "z"]\<close> gives \<^verbatim>\<open>["x", "y", "z"]\<close>.\<close>

theorem sort_answer_witness:
  "derive_answer env0 sort_question world0 =
     (Inr (JList [JStr ''x'', JStr ''y'', JStr ''z'']), world0)"
  using sort_answer [where q = sort_question and h = "JBool True"
      and ss = "[''x, y'', ''z'']" and E = env0 and w = world0]
  by (simp add: sort_question_def py_items_def)

text \<open>
  C4.  A question whose \<^verbatim>\<open>has_correct_answer\<close> is not \<^verbatim>\<open>False\<close>, of type
  \<^verbatim>\<open>"fitbq"\<close>, whose correct answers are a mapping: the derived answer lists the
  values of the items of the mapping, the items taken in ascending order of their keys
  (which are distinct, so the order is strict).
\<close>

theorem fitbq_answer:
  assumes "getitem q ''has_correct_answer'' = Inr h" and "h \<noteq> JBool False"
    and "getitem q ''type'' = Inr (JStr ''fitbq'')"
    and "getitem q ''correct_answers'' = Inr (JObj kvs)"
  shows "\<exists>its. derive_answer E q w = (Inr (JList (map snd its)), w)
     \<and> sorted (map fst its) \<and> distinct (map fst its) \<and> mset its = mset (py_items kvs)"
proof -
  let ?its = "sort_key fst (py_items kvs)"
  have "derive_answer E q w = (Inr (JList (map snd ?its)), w)"
    using assms by (simp add: derive_answer_def answer_by_type_def and_then_def)
  moreover have "sorted (map fst ?its)" by simp
  moreover have "mset ?its = mset (py_items kvs)" by simp
  moreover have "distinct (map fst ?its)"
  proof -
    have "mset (map fst ?its) = mset (map fst (py_items kvs))" by simp
    then show ?thesis
      using distinct_py_items [of kvs] by (metis mset_eq_imp_distinct_iff)
  qed
  ultimately show ?thesis by blast
qed

text \<open>The example of the specification: \<^verbatim>\<open>{"2": "foo", "1": "bar"}\<close> gives \<^verbatim>\<open>["bar", "foo"]\<close>.\<close>

theorem fitbq_answer_witness:
  "\<exists>its. derive_answer env0 fitbq_question world0 = (Inr (JList (map snd its)), world0)
     \<and> its = [(''1'', JStr ''bar''), (''2'', JStr ''foo'')]"
proof -
  from fitbq_answer [where q = fitbq_question and h = "JBool True"
      and kvs = "[(''2'', JStr ''foo''), (''1'', JStr ''bar'')]" and E = env0 and w = world0]
  obtain its where a: "derive_answer env0 fitbq_question world0 = (Inr (JList (map snd its)), world0)"
    and s: "sorted (map fst its)"
    and m: "mset its = mset (py_items [(''2'', JStr ''foo''), (''1'', JStr ''bar'')])"
    by (auto simp: fitbq_question_def py_items_def)
  from m have m': "mset its = mset [(''2'', JStr ''foo''), (''1'', JStr ''bar'')]"
    by (simp add: py_items_def)
  then have "length its = 2"
    by (metis length_Cons list.size(3) size_mset numeral_2_eq_2)
  then obtain x y where xy: "its = [x, y]"
    by (metis length_0_conv length_Suc_conv numeral_2_eq_2)
  with m' have "(x = (''2'', JStr ''foo'') \<and> y = (''1'', JStr ''bar''))
      \<or> (x = (''1'', JStr ''bar'') \<and> y = (''2'', JStr ''foo''))"
    by (auto simp: add_eq_conv_ex)
  with s xy have "its = [(''1'', JStr ''bar''), (''2'', JStr ''foo'')]"
    by (auto simp: less_eq_list_code)
  with a show ?thesis by blast
qed

text \<open>
  C5.  A question whose \<^verbatim>\<open>has_correct_answer\<close> is \<^verbatim>\<open>False\<close> and whose choices are a
  list that is not empty: whatever its type is, or whether it has one, the derived answer
  is a list of one element, which is one of the choices.  One random draw is made.
\<close>

theorem no_correct_answer_choice:
  assumes "getitem q ''has_correct_answer'' = Inr (JBool False)"
    and "getitem q ''choices'' = Inr (JList cs)" and "cs \<noteq> []"
  shows "\<exists>c \<in> set cs. derive_answer E q w = (Inr (JList [c]), w\<lparr>drawn := Suc (drawn w)\<rparr>)"
  using assms by (simp add: derive_answer_def)

theorem no_correct_answer_choice_witness:
  "\<exists>c \<in> set [JStr ''A'', JStr ''B''].
     derive_answer env0 (poll_question (JStr ''fitbq'')) world0 =
       (Inr (JList [c]), world0\<lparr>drawn := Suc (drawn world0)\<rparr>)"
  using no_correct_answer_choice [where q = "poll_question (JStr ''fitbq'')"
      and cs = "[JStr ''A'', JStr ''B'']" and E = env0 and w = world0]
  by (simp add: poll_question_def py_items_def)

text \<open>
  Without the condition on the choices the statement fails: for a question whose
  \<^verbatim>\<open>has_correct_answer\<close> is \<^verbatim>\<open>False\<close> and whose list of choices is empty,
  \<^verbatim>\<open>random.choice\<close> raises \<^verbatim>\<open>IndexError\<close>, no answer is derived, and the load of the
  chapter that has the question stores nothing.
\<close>

theorem no_correct_answer_choice_counterexample:
  "getitem empty_poll_question ''has_correct_answer'' = Inr (JBool False)
   \<and> getitem empty_poll_question ''choices'' = Inr (JList [])
   \<and> derive_answer env0 empty_poll_question world0 = (Inl IndexError, world0)
   \<and> fst (load_question_data env_empty_poll (JInt 7) client0 world0) = Inl IndexError
   \<and> questions (fst (snd (load_question_data env_empty_poll (JInt 7) client0 world0))) = []"
  by (simp add: empty_poll_question_def match_question_def py_items_def derive_answer_def
      answer_by_type_def load_question_data_def send_def env_empty_poll_def client0_def
      world0_def and_then_def py_split_def setitem_def)

text \<open>
  C10.  When \<^verbatim>\<open>has_correct_answer\<close> is anything but the boolean \<^verbatim>\<open>False\<close>, the
  answer is the one that the dispatch on the type gives.
\<close>

theorem random_choice_only_if_False:
  assumes "getitem q ''has_correct_answer'' = Inr h" and "h \<noteq> JBool False"
  shows "derive_answer E q w = answer_by_type E q w"
  using assms by (simp add: derive_answer_def)

text \<open>
  With \<^verbatim>\<open>None\<close> and with \<^verbatim>\<open>0\<close> a multiple-choice question keeps its correct answers,
  and nothing is drawn.
\<close>

theorem random_choice_only_if_False_witness:
  "derive_answer env0 (mc_question JNull) world0 = (Inr (JList [JStr ''B'']), world0)
   \<and> derive_answer env0 (mc_question (JInt 0)) world0 = (Inr (JList [JStr ''B'']), world0)"
  using random_choice_only_if_False [where q = "mc_question JNull" and h = JNull
      and E = env0 and w = world0]
    random_choice_only_if_False [where q = "mc_question (JInt 0)" and h = "JInt 0"
      and E = env0 and w = world0]
  by (simp add: mc_question_def py_items_def answer_by_type_def)

section \<open>Loading questions\<close>

lemma random_choice_fails:
  "fst (random_choice E v w) = Inl e \<Longrightarrow> fst (random_choice E v w') = Inl e"
  by (cases v) (auto split: if_splits)

lemma derive_answer_fails:
  assumes "fst (derive_answer E q w) = Inl e"
  shows "fst (derive_answer E q w') = Inl e"
proof (cases "getitem q ''has_correct_answer''")
  case (Inl a)
  with assms show ?thesis by (simp add: derive_answer_def)
next
  case h: (Inr h)
  show ?thesis
  proof (cases "h = JBool False")
    case True
    show ?thesis
    proof (cases "getitem q ''choices''")
      case (Inl a)
      with assms h True show ?thesis by (simp add: derive_answer_def)
    next
      case (Inr cs)
      with assms h True have "fst (random_choice E cs w) = Inl e"
        by (auto simp: derive_answer_def split: sum.splits prod.splits)
      then have "fst (random_choice E cs w') = Inl e" by (rule random_choice_fails)
      with h True Inr show ?thesis
        by (auto simp: derive_answer_def split: sum.splits prod.splits)
    qed
  next
    case False
    show ?thesis
    proof (cases "getitem q ''type''")
      case (Inl a)
      with assms h False show ?thesis by (simp add: derive_answer_def answer_by_type_def)
    next
      case t: (Inr t)
      show ?thesis
      proof (cases "t = JStr ''wa'' \<or> t = JStr ''na''")
        case wa: True
        show ?thesis
        proof (cases "getitem q ''correct_answers''")
          case (Inl a)
          with assms h False t wa show ?thesis
            by (auto simp: derive_answer_def answer_by_type_def)
        next
          case (Inr ca)
          with assms h False t wa have "fst (random_choice E ca w) = Inl e"
            by (auto simp: derive_answer_def answer_by_type_def split: sum.splits prod.splits)
          then have "fst (random_choice E ca w') = Inl e" by (rule random_choice_fails)
          with h False t wa Inr show ?thesis
            by (auto simp: derive_answer_def answer_by_type_def split: sum.splits prod.splits)
        qed
      next
        case False
        with assms h \<open>h \<noteq> JBool False\<close> t show ?thesis
          by (auto simp: derive_answer_def answer_by_type_def split: if_splits)
      qed
    qed
  qed
qed

lemma derive_answer_returns:
  assumes "fst (derive_answer E q w) = Inr a"
  shows "\<exists>a'. fst (derive_answer E q w') = Inr a'"
proof (cases "fst (derive_answer E q w')")
  case (Inl e)
  from derive_answer_fails [OF this, of w] assms show ?thesis by simp
next
  case (Inr a')
  then show ?thesis by blast
qed

lemma load_loop_fails:
  "fst (load_loop E qs xs data w) = Inl e \<Longrightarrow> fst (load_loop E qs xs data' w') = Inl e"
proof (induction xs arbitrary: data w data' w')
  case Nil
  then show ?case by simp
next
  case (Cons q xs)
  show ?case
  proof (cases "and_then (getitem q ''id'') py_hash")
    case (Inl a)
    with Cons.prems show ?thesis by simp
  next
    case k: (Inr k)
    then obtain qid where qid: "getitem q ''id'' = Inr qid"
      by (auto simp: and_then_def split: sum.splits)
    show ?thesis
    proof (cases "k \<in> set (map fst qs)")
      case True
      with k Cons show ?thesis by simp
    next
      case False
      show ?thesis
      proof (cases "getitem q ''question''")
        case (Inl a)
        with k qid False Cons.prems show ?thesis by simp
      next
        case t: (Inr qt)
        obtain r w1 where d: "derive_answer E q w = (r, w1)" by (cases "derive_answer E q w")
        obtain r' w1' where d': "derive_answer E q w' = (r', w1')" by (cases "derive_answer E q w'")
        show ?thesis
        proof (cases r)
          case (Inl a)
          with k qid False t d Cons.prems have "a = e" by simp
          with Inl d derive_answer_fails [of E q w e w'] d' have "r' = Inl e" by simp
          with k qid False t d' show ?thesis by simp
        next
          case (Inr a)
          with d derive_answer_returns [of E q w a w'] d' obtain a' where r': "r' = Inr a'"
            by auto
          from Inr k qid False t d Cons.prems r' d' Cons.IH show ?thesis
            by (auto split: sum.splits)
        qed
      qed
    qed
  qed
qed

text \<open>What a run of the loop that ends normally has stored.\<close>

lemma load_loop_returns:
  assumes "load_loop E qs xs data w = (Inr data', w')"
    and "distinct (map fst data)" and "fst ` set data \<inter> fst ` set qs = {}"
  shows "distinct (map fst data') \<and> fst ` set data' \<inter> fst ` set qs = {}
    \<and> fst ` set data \<subseteq> fst ` set data'
    \<and> (\<forall>q \<in> set xs. \<exists>k. and_then (getitem q ''id'') py_hash = Inr k
          \<and> k \<in> fst ` set qs \<union> fst ` set data')"
  using assms
proof (induction xs arbitrary: data w)
  case Nil
  then show ?case by simp
next
  case (Cons q xs)
  from Cons.prems(1) obtain k where k: "and_then (getitem q ''id'') py_hash = Inr k"
    by (cases "and_then (getitem q ''id'') py_hash") auto
  show ?case
  proof (cases "k \<in> set (map fst qs)")
    case True
    with k Cons.prems have "load_loop E qs xs data w = (Inr data', w')" by simp
    from Cons.IH [OF this Cons.prems(2,3)] k True show ?thesis by auto
  next
    case False
    with k Cons.prems(1) obtain obj en w1 where
      step: "load_loop E qs xs (setitem k obj en data) w1 = (Inr data', w')"
      by (auto split: sum.splits prod.splits)
    have d: "distinct (map fst (setitem k obj en data))"
      using Cons.prems(2) by (rule distinct_setitem)
    have i: "fst ` set (setitem k obj en data) \<inter> fst ` set qs = {}"
      using Cons.prems(3) False by (auto simp: dom_setitem)
    from Cons.IH [OF step d i] k show ?thesis
      by (auto simp: dom_setitem)
  qed
qed

text \<open>A question whose id is a key of the accumulated mapping is skipped.\<close>

lemma load_loop_skips:
  assumes "\<forall>q \<in> set xs. \<exists>k. and_then (getitem q ''id'') py_hash = Inr k \<and> k \<in> fst ` set qs"
  shows "load_loop E qs xs data w = (Inr data, w)"
  using assms by (induction xs) force+

lemma send_trace: "send E req s w = (r, s', w') \<Longrightarrow> w' = w\<lparr>trace := trace w @ [req]\<rparr>"
  by (auto simp: send_def split: sum.splits)

lemma send_result: "send E req s w = (r, s', w') \<Longrightarrow> r = server E (trace w) req"
  by (auto simp: send_def split: sum.splits)

text \<open>
  C1.  Two loads of one chapter that receive the same response, the second starting where
  the first ended.  The first load keeps every entry that was there, in its place, and
  adds no key twice; the second load ends as the first did and leaves the accumulated
  mapping as the first left it, so the number of questions is the same.
\<close>

theorem load_twice:
  assumes first: "load_question_data E chapter_id c w = (r1, c1, w1)"
    and second: "load_question_data E chapter_id c1 w1 = (r2, c2, w2)"
    and same: "server E (trace w1) (Get (Question_data chapter_id) []) =
               server E (trace w) (Get (Question_data chapter_id) [])"
  shows "questions c2 = questions c1 \<and> length (questions c2) = length (questions c1)
    \<and> r2 = r1 \<and> prefix (questions c) (questions c1)
    \<and> (distinct (map fst (questions c)) \<longrightarrow> distinct (map fst (questions c1)))"
proof -
  let ?req = "Get (Question_data chapter_id) []"
  obtain a s wa where sa: "send E ?req (session c) w = (a, s, wa)"
    by (cases "send E ?req (session c) w")
  obtain b t wb where sb: "send E ?req (session c1) w1 = (b, t, wb)"
    by (cases "send E ?req (session c1) w1")
  from send_result [OF sa] send_result [OF sb] same have ba: "b = a" by simp
  show ?thesis
  proof (cases a)
    case (Inl e)
    with first second sa sb ba show ?thesis
      by (auto simp: load_question_data_def)
  next
    case r: (Inr r)
    show ?thesis
    proof (cases "and_then (resp_json r) py_iter")
      case (Inl e)
      with first second sa sb ba r show ?thesis
        by (auto simp: load_question_data_def)
    next
      case xs: (Inr xs)
      obtain l wl where l: "load_loop E (questions c) xs [] wa = (l, wl)"
        by (cases "load_loop E (questions c) xs [] wa")
      show ?thesis
      proof (cases l)
        case (Inl e)
        with first sa r xs l have c1: "questions c1 = questions c" and r1: "r1 = Inl e"
          by (auto simp: load_question_data_def)
        from l Inl load_loop_fails [of E "questions c" xs "[]" wa e "[]" wb]
        have "fst (load_loop E (questions c) xs [] wb) = Inl e" by simp
        with second sb ba r xs c1 have "questions c2 = questions c1 \<and> r2 = Inl e"
          by (auto simp: load_question_data_def split: prod.splits sum.splits)
        with c1 r1 show ?thesis by simp
      next
        case (Inr data)
        with first sa r xs l have c1: "questions c1 = dict_update_keyed (questions c) data"
          and r1: "r1 = Inr ()"
          by (auto simp: load_question_data_def)
        from load_loop_returns [of E "questions c" xs "[]" wa data wl] l Inr
        have dd: "distinct (map fst data)"
          and di: "fst ` set data \<inter> fst ` set (questions c) = {}"
          and all: "\<forall>q \<in> set xs. \<exists>k. and_then (getitem q ''id'') py_hash = Inr k
              \<and> k \<in> fst ` set (questions c) \<union> fst ` set data"
          by auto
        from dict_update_keyed_fresh [OF dd di] c1 have app: "questions c1 = questions c @ data"
          by simp
        then have "fst ` set (questions c1) = fst ` set (questions c) \<union> fst ` set data"
          by auto
        with all have "\<forall>q \<in> set xs. \<exists>k. and_then (getitem q ''id'') py_hash = Inr k
              \<and> k \<in> fst ` set (questions c1)"
          by simp
        from load_loop_skips [OF this, of E "[]" wb]
        have "load_loop E (questions c1) xs [] wb = (Inr [], wb)" .
        with second sb ba r xs have "questions c2 = questions c1 \<and> r2 = Inr ()"
          by (auto simp: load_question_data_def)
        moreover from app dd di have "distinct (map fst (questions c)) \<longrightarrow> distinct (map fst (questions c1))"
          by auto
        ultimately show ?thesis using app r1 by simp
      qed
    qed
  qed
qed

text \<open>
  The chapter of the example has the questions 1 and 4; they are there after one load
  and after two.
\<close>

theorem load_twice_witness:
  "\<exists>c1 w1 c2 w2. load_question_data env1 (JInt 7) client0 world0 = (Inr (), c1, w1)
     \<and> load_question_data env1 (JInt 7) c1 w1 = (Inr (), c2, w2)
     \<and> questions c2 = questions c1 \<and> map fst (questions c1) = [KInt 1, KInt 4]"
proof -
  obtain r1 c1 w1 where first: "load_question_data env1 (JInt 7) client0 world0 = (r1, c1, w1)"
    by (cases "load_question_data env1 (JInt 7) client0 world0")
  obtain r2 c2 w2 where second: "load_question_data env1 (JInt 7) c1 w1 = (r2, c2, w2)"
    by (cases "load_question_data env1 (JInt 7) c1 w1")
  have same: "server env1 (trace w1) (Get (Question_data (JInt 7)) []) =
      server env1 (trace world0) (Get (Question_data (JInt 7)) [])"
    by (simp add: env1_def)
  have "fst (load_question_data env1 (JInt 7) client0 world0) = Inr ()"
    by (simp add: load_question_data_def send_def env1_def client0_def world0_def and_then_def
        match_question_def poll_question_def py_items_def derive_answer_def answer_by_type_def
        py_split_def setitem_def)
  with first have r1: "r1 = Inr ()" by simp
  have "map fst (questions (fst (snd (load_question_data env1 (JInt 7) client0 world0)))) =
      [KInt 1, KInt 4]"
    by (simp add: load_question_data_def send_def env1_def client0_def world0_def and_then_def
        match_question_def poll_question_def py_items_def derive_answer_def answer_by_type_def
        py_split_def setitem_def)
  with first have keys: "map fst (questions c1) = [KInt 1, KInt 4]" by simp
  from load_twice [OF first second same] r1 keys first second show ?thesis by simp
qed

text \<open>
  C6.  A question id that can be a key and is not a key of the accumulated mapping:
  \<open>answer_question\<close> prints its message and returns \<^verbatim>\<open>None\<close>; it raises nothing, sends
  nothing and leaves the client as it is.
\<close>

theorem answer_question_not_loaded:
  assumes "py_hash question_id = Inr k" and "k \<notin> fst ` set (questions c)"
  shows "answer_question E question_id c w =
     (Inr None, c, w\<lparr>stdout := stdout w @ [Not_loaded question_id]\<rparr>)"
proof -
  from assms(2) have "map_of (questions c) k = None"
    by (simp add: map_of_eq_None_iff)
  with assms(1) show ?thesis by (simp add: answer_question_def)
qed

theorem answer_question_not_loaded_witness:
  "answer_question env0 (JInt 99) client0 world0 =
     (Inr None, client0, world0\<lparr>stdout := stdout world0 @ [Not_loaded (JInt 99)]\<rparr>)"
  using answer_question_not_loaded [where question_id = "JInt 99" and k = "KInt 99"
      and c = client0 and E = env0 and w = world0]
  by (simp add: client0_def)

section \<open>Loading chapters\<close>

lemma random_choice_world:
  "random_choice E v w = (r, w') \<Longrightarrow> trace w' = trace w \<and> stdout w' = stdout w"
  by (cases v) (auto split: if_splits)

lemma derive_answer_world:
  assumes "derive_answer E q w = (r, w')"
  shows "trace w' = trace w \<and> stdout w' = stdout w"
proof -
  have "\<And>v x y. random_choice E v w = (x, y) \<Longrightarrow> trace y = trace w \<and> stdout y = stdout w"
    by (rule random_choice_world)
  with assms show ?thesis
    by (auto simp: derive_answer_def answer_by_type_def split: sum.splits prod.splits if_splits)
qed

lemma load_loop_world:
  "load_loop E qs xs data w = (r, w') \<Longrightarrow> trace w' = trace w \<and> stdout w' = stdout w"
proof (induction xs arbitrary: data w)
  case Nil
  then show ?case by simp
next
  case (Cons q xs)
  show ?case
  proof (cases "derive_answer E q w")
    case (Pair a w1)
    from derive_answer_world [OF Pair] have "trace w1 = trace w \<and> stdout w1 = stdout w" .
    with Cons.prems Pair Cons.IH show ?thesis
      by (auto split: sum.splits if_splits)
  qed
qed

lemma load_question_data_world:
  assumes "load_question_data E chapter_id c w = (r, c', w')"
  shows "trace w' = trace w @ [Get (Question_data chapter_id) []] \<and> stdout w' = stdout w
    \<and> chapters c' = chapters c"
proof -
  let ?req = "Get (Question_data chapter_id) []"
  obtain a s wa where sa: "send E ?req (session c) w = (a, s, wa)"
    by (cases "send E ?req (session c) w")
  from send_trace [OF sa] have wa: "trace wa = trace w @ [?req] \<and> stdout wa = stdout w"
    by simp
  have "\<And>xs x y. load_loop E (questions c) xs [] wa = (x, y) \<Longrightarrow> trace y = trace wa \<and> stdout y = stdout wa"
    by (rule load_loop_world)
  with assms sa wa show ?thesis
    by (auto simp: load_question_data_def split: sum.splits prod.splits)
qed

lemma required_chapters_of_names:
  "required_chapters_of (map (\<lambda>(name, i). (KStr name, i)) chs) =
     Inr (map (\<lambda>(name, i). (KStr name, i))
            (filter (\<lambda>(name, i). prefix ''Chapter'' name \<and> \<not> sublist ''OPTIONAL'' name) chs))"
  by (induction chs) (simp_all split: prod.splits)

lemma load_chapters_loop_trace:
  assumes "load_chapters_loop E vp (map (\<lambda>(name, i). (KStr name, i)) xs) c w = (r, c', w')"
  shows "prefix (trace w) (trace w')
    \<and> prefix (trace w') (trace w @ map (\<lambda>(name, i). Get (Question_data i) [])
          (filter (\<lambda>(name, i). startswith name vp) xs))
    \<and> (r = Inr () \<longrightarrow> trace w' = trace w @ map (\<lambda>(name, i). Get (Question_data i) [])
          (filter (\<lambda>(name, i). startswith name vp) xs))"
  using assms
proof (induction xs arbitrary: c w)
  case Nil
  then show ?case by simp
next
  case (Cons x xs)
  obtain name i where x: "x = (name, i)" by (cases x)
  show ?case
  proof (cases "startswith name vp")
    case False
    with Cons.prems x have "load_chapters_loop E vp (map (\<lambda>(name, i). (KStr name, i)) xs) c w = (r, c', w')"
      by simp
    from Cons.IH [OF this] x False show ?thesis by simp
  next
    case True
    let ?w = "w\<lparr>stdout := stdout w @ [Wrap_print ''Loading chapter'' (JStr name)]\<rparr>"
    obtain a c1 w1 where l: "load_question_data E i c ?w = (a, c1, w1)"
      by (cases "load_question_data E i c ?w")
    from load_question_data_world [OF l]
    have t: "trace w1 = trace w @ [Get (Question_data i) []]" by simp
    show ?thesis
    proof (cases a)
      case (Inl e)
      with Cons.prems x True l t show ?thesis by auto
    next
      case (Inr u)
      with Cons.prems x True l have "load_chapters_loop E vp (map (\<lambda>(name, i). (KStr name, i)) xs) c1 w1 = (r, c', w')"
        by simp
      from Cons.IH [OF this] t x True show ?thesis
        by (auto simp: prefix_def)
    qed
  qed
qed

lemma startswith_valid_prefixes:
  "nums \<noteq> [] \<Longrightarrow> startswith name (valid_prefixes nums) =
     (\<exists>n \<in> set nums. prefix (''Chapter '' @ str_int n) name)"
  by (auto simp: valid_prefixes_def list_ex_iff)

lemma startswith_no_prefixes: "startswith name (valid_prefixes [])"
  by (simp add: valid_prefixes_def)

text \<open>
  C7.  A client whose chapters all have strings as display names.  The required chapters
  are those whose name starts with \<^verbatim>\<open>Chapter\<close> and does not contain \<^verbatim>\<open>OPTIONAL\<close>, in
  the order of the chapters.  With a list of chapter numbers that is not empty, the
  chapters whose questions are requested are, in that order, the required chapters whose
  name starts with \<^verbatim>\<open>Chapter\<close>, a space and one of the numbers: all of them when the
  call ends normally, the first of them up to the failing one when a load raises.
\<close>

theorem required_chapters_filter:
  assumes "chapters c = map (\<lambda>(name, i). (KStr name, i)) chs"
    and "nums \<noteq> []"
    and "load_chapters E (Some nums) c w = (r, c', w')"
  shows "required_chapters c =
      Inr (map (\<lambda>(name, i). (KStr name, i))
             (filter (\<lambda>(name, i). prefix ''Chapter'' name \<and> \<not> sublist ''OPTIONAL'' name) chs))
    \<and> prefix (trace w')
        (trace w @ map (\<lambda>(name, i). Get (Question_data i) [])
           (filter (\<lambda>(name, i). (\<exists>n \<in> set nums. prefix (''Chapter '' @ str_int n) name)
               \<and> prefix ''Chapter'' name \<and> \<not> sublist ''OPTIONAL'' name) chs))
    \<and> (r = Inr () \<longrightarrow> trace w' =
        trace w @ map (\<lambda>(name, i). Get (Question_data i) [])
           (filter (\<lambda>(name, i). (\<exists>n \<in> set nums. prefix (''Chapter '' @ str_int n) name)
               \<and> prefix ''Chapter'' name \<and> \<not> sublist ''OPTIONAL'' name) chs))"
proof -
  let ?req = "filter (\<lambda>(name, i). prefix ''Chapter'' name \<and> \<not> sublist ''OPTIONAL'' name) chs"
  have req: "required_chapters c = Inr (map (\<lambda>(name, i). (KStr name, i)) ?req)"
    using assms(1) by (simp add: required_chapters_def required_chapters_of_names)
  with assms(3) have "load_chapters_loop E (valid_prefixes nums)
      (map (\<lambda>(name, i). (KStr name, i)) ?req) c w = (r, c', w')"
    by (simp add: load_chapters_def)
  note tr = load_chapters_loop_trace [OF this]
  have sel: "filter (\<lambda>(name, i). startswith name (valid_prefixes nums)) ?req =
      filter (\<lambda>(name, i). (\<exists>n \<in> set nums. prefix (''Chapter '' @ str_int n) name)
               \<and> prefix ''Chapter'' name \<and> \<not> sublist ''OPTIONAL'' name) chs"
    using assms(2) by (auto simp: startswith_valid_prefixes intro: filter_cong)
  from tr req show ?thesis unfolding sel by simp
qed

text \<open>
  Of the four chapters of the example and the number 3, \<^verbatim>\<open>Chapter 3: Intro\<close> alone
  is loaded: \<^verbatim>\<open>Chapter 3 OPTIONAL\<close> and \<^verbatim>\<open>Appendix\<close> are not required, and
  \<^verbatim>\<open>Chapter 4: Memory\<close> is required and not selected.
\<close>

theorem required_chapters_filter_witness:
  "required_chapters client0 =
      Inr [(KStr ''Chapter 3: Intro'', JInt 7), (KStr ''Chapter 4: Memory'', JInt 10)]
   \<and> fst (load_chapters env1 (Some [3]) client0 world0) = Inr ()
   \<and> trace (snd (snd (load_chapters env1 (Some [3]) client0 world0))) =
       [Get (Question_data (JInt 7)) []]"
proof -
  let ?chs = "[(''Chapter 3: Intro'', JInt 7), (''Chapter 3 OPTIONAL'', JInt 8),
     (''Appendix'', JInt 9), (''Chapter 4: Memory'', JInt 10)]"
  obtain r c' w' where l: "load_chapters env1 (Some [3]) client0 world0 = (r, c', w')"
    by (cases "load_chapters env1 (Some [3]) client0 world0")
  have names: "chapters client0 = map (\<lambda>(name, i). (KStr name, i)) ?chs"
    by (simp add: client0_def)
  have ok: "fst (load_chapters env1 (Some [3]) client0 world0) = Inr ()"
    by (simp add: load_chapters_def required_chapters_def valid_prefixes_def str_int_def
        load_question_data_def send_def env1_def client0_def world0_def and_then_def
        match_question_def poll_question_def py_items_def derive_answer_def answer_by_type_def
        py_split_def sublist_code(3) setitem_def)
  with l have r: "r = Inr ()" by simp
  from required_chapters_filter [OF names _ l] r l ok show ?thesis
    by (simp add: world0_def str_int_def sublist_code(3))
qed

text \<open>
  C9.  \<open>_load_chapters\<close>, \<open>list_questions\<close> and \<open>run\<close> do with an empty list of chapter
  numbers what they do with no list, and what they load are the required chapters, all
  of them when the call ends normally.
\<close>

theorem empty_filter_loads_all:
  assumes "chapters c = map (\<lambda>(name, i). (KStr name, i)) chs"
    and "load_chapters E (Some []) c w = (r, c', w')"
  shows "load_chapters E None c w = (r, c', w')
    \<and> list_questions E (Some []) c w = list_questions E None c w
    \<and> run E (Some []) delay c w = run E None delay c w
    \<and> prefix (trace w')
        (trace w @ map (\<lambda>(name, i). Get (Question_data i) [])
           (filter (\<lambda>(name, i). prefix ''Chapter'' name \<and> \<not> sublist ''OPTIONAL'' name) chs))
    \<and> (r = Inr () \<longrightarrow> trace w' =
        trace w @ map (\<lambda>(name, i). Get (Question_data i) [])
           (filter (\<lambda>(name, i). prefix ''Chapter'' name \<and> \<not> sublist ''OPTIONAL'' name) chs))"
proof -
  let ?req = "filter (\<lambda>(name, i). prefix ''Chapter'' name \<and> \<not> sublist ''OPTIONAL'' name) chs"
  have same: "load_chapters E (Some []) c w = load_chapters E None c w"
    by (simp add: load_chapters_def)
  have req: "required_chapters c = Inr (map (\<lambda>(name, i). (KStr name, i)) ?req)"
    using assms(1) by (simp add: required_chapters_def required_chapters_of_names)
  with assms(2) have "load_chapters_loop E (valid_prefixes [])
      (map (\<lambda>(name, i). (KStr name, i)) ?req) c w = (r, c', w')"
    by (simp add: load_chapters_def)
  note tr = load_chapters_loop_trace [OF this]
  have sel: "filter (\<lambda>(name, i). startswith name (valid_prefixes [])) ?req = ?req"
    by (simp add: startswith_no_prefixes)
  from tr same assms(2) show ?thesis
    unfolding sel by (simp add: list_questions_def run_def)
qed

theorem empty_filter_loads_all_witness:
  "load_chapters env1 None client0 world0 = load_chapters env1 (Some []) client0 world0
   \<and> fst (load_chapters env1 (Some []) client0 world0) = Inr ()
   \<and> trace (snd (snd (load_chapters env1 (Some []) client0 world0))) =
       [Get (Question_data (JInt 7)) [], Get (Question_data (JInt 10)) []]"
proof -
  let ?chs = "[(''Chapter 3: Intro'', JInt 7), (''Chapter 3 OPTIONAL'', JInt 8),
     (''Appendix'', JInt 9), (''Chapter 4: Memory'', JInt 10)]"
  obtain r c' w' where l: "load_chapters env1 (Some []) client0 world0 = (r, c', w')"
    by (cases "load_chapters env1 (Some []) client0 world0")
  have names: "chapters client0 = map (\<lambda>(name, i). (KStr name, i)) ?chs"
    by (simp add: client0_def)
  have ok: "fst (load_chapters env1 (Some []) client0 world0) = Inr ()"
    by (simp add: load_chapters_def required_chapters_def valid_prefixes_def
        load_question_data_def send_def env1_def client0_def world0_def and_then_def
        match_question_def poll_question_def mc_question_def py_items_def derive_answer_def
        answer_by_type_def py_split_def sublist_code(3) setitem_def)
  with l have r: "r = Inr ()" by simp
  from empty_filter_loads_all [OF names l] r l ok show ?thesis
    by (simp add: world0_def sublist_code(3))
qed

section \<open>Construction\<close>

text \<open>
  C8.  A construction that gets as far as the requests (a course id is there).  When the
  bootstrap response sets no \<^verbatim>\<open>csrftoken\<close> cookie, the construction raises
  \<^verbatim>\<open>AssertionError\<close> after that one request.  When the cookie is set and the response
  to the login has no \<^verbatim>\<open>TH_JWT\<close> header, it raises \<^verbatim>\<open>KeyError\<close> after those two
  requests.  Either way there is no client.
\<close>

theorem init_fails:
  assumes "(if py_truthy cid then cid else class_course_id) \<noteq> JNull"
  shows "(\<forall>r. server E (trace w) (Get Csrf []) = Inr r \<and> set_cookies r ''csrftoken'' = None
        \<longrightarrow> init E class_course_id user pass cid w =
              (Inl AssertionError, w\<lparr>trace := trace w @ [Get Csrf []]\<rparr>))
    \<and> (\<forall>r tok r2. server E (trace w) (Get Csrf []) = Inr r
          \<and> set_cookies r ''csrftoken'' = Some tok
          \<and> server E (trace w @ [Get Csrf []])
               (Post Login [(''referer'', Login_referer)]
                  [(''username'', user), (''password'', pass)]) = Inr r2
          \<and> resp_headers r2 ''TH_JWT'' = None
        \<longrightarrow> init E class_course_id user pass cid w =
              (Inl KeyError,
               w\<lparr>trace := trace w @ [Get Csrf [],
                    Post Login [(''referer'', Login_referer)]
                      [(''username'', user), (''password'', pass)]]\<rparr>))"
  using assms
  by (auto simp: init_def csrf_token_def load_csrf_cookie_def login_def send_def Let_def)

theorem init_fails_witness:
  "init env_no_csrf Psych210Bot_COURSE_ID (JStr ''student'') (JStr ''secret'') JNull world0 =
     (Inl AssertionError, world0\<lparr>trace := trace world0 @ [Get Csrf []]\<rparr>)
   \<and> init env_no_jwt Psych210Bot_COURSE_ID (JStr ''student'') (JStr ''secret'') JNull world0 =
     (Inl KeyError,
      world0\<lparr>trace := trace world0 @ [Get Csrf [],
         Post Login [(''referer'', Login_referer)]
           [(''username'', JStr ''student''), (''password'', JStr ''secret'')]]\<rparr>)"
  using init_fails [where cid = JNull and class_course_id = Psych210Bot_COURSE_ID
      and E = env_no_csrf and w = world0 and user = "JStr ''student''" and pass = "JStr ''secret''"]
    init_fails [where cid = JNull and class_course_id = Psych210Bot_COURSE_ID
      and E = env_no_jwt and w = world0 and user = "JStr ''student''" and pass = "JStr ''secret''"]
  by (simp add: env_no_csrf_def env_no_jwt_def Psych210Bot_COURSE_ID_def)

end
